theory Spec2Isabelle
  imports Complex_Main
begin

section \<open>Data model of multibubble\_lab.py\<close>

text \<open>
  Python floats are modelled as the reals (rounding, infinities, NaN and the range error
  of \<open>math.exp\<close> are outside the model), Python ints as \<open>int\<close>, list lengths and the ids computed from them as
  \<open>nat\<close>. Field names follow the source; where two classes share a field name, or a
  name is a HOL constant, the name carries a short prefix or suffix.
\<close>

text \<open>The only exception of the core: the \<open>ValueError\<close> of the policy constructor
  (its message is \<^verbatim>\<open>policy must be 'closed', 'consensual', or 'open'\<close>).\<close>

datatype error = ValueError

subsection \<open>The two random generators\<close>

text \<open>
  The source draws from two library generators: the NumPy generator \<open>self.rng\<close> owned by
  a \<open>Multiverse\<close>, and the generator of Python's \<open>random\<close> module, which is one
  state shared by the whole process. Their algorithms are not part of the repository, so
  they are parameters: \<open>'g\<close> and \<open>'r\<close> are the generator states, and every draw
  returns the sample with the next state.
\<close>

record ('g, 'r) randlib =
  default_rng :: "int \<Rightarrow> 'g"                          \<comment> \<open>\<open>np.random.default_rng(seed)\<close>\<close>
  rng_normal :: "'g \<Rightarrow> real \<Rightarrow> real \<Rightarrow> real \<times> 'g"   \<comment> \<open>\<open>rng.normal(loc, scale)\<close>\<close>
  rng_random :: "'g \<Rightarrow> real \<times> 'g"                    \<comment> \<open>\<open>rng.random()\<close>\<close>
  random_seed :: "int \<Rightarrow> 'r"                          \<comment> \<open>\<open>random.seed(seed)\<close>\<close>
  random_random :: "'r \<Rightarrow> real \<times> 'r"                 \<comment> \<open>\<open>random.random()\<close>\<close>

subsection \<open>Sovereignty policy\<close>

record SovereigntyPolicy =
  mode :: string

definition SovereigntyPolicy_init :: "string \<Rightarrow> error + SovereigntyPolicy" where
  "SovereigntyPolicy_init m =
     (if m \<notin> set [''closed'', ''consensual'', ''open'']
      then Inl ValueError
      else Inr \<lparr>mode = m\<rparr>)"

definition scale :: "SovereigntyPolicy \<Rightarrow> real" where
  "scale self = (if mode self = ''open'' then 1 else (if mode self = ''consensual'' then 0.5 else 0))"

definition allows_export :: "SovereigntyPolicy \<Rightarrow> bool" where
  "allows_export self \<longleftrightarrow> mode self \<in> set [''consensual'', ''open'']"

subsection \<open>Ethics engine\<close>

record EthicsConfig =
  consent_prob :: real
  inherit_consent :: bool
  strictness :: real

record ledger_entry =
  le_t :: nat
  le_type :: string
  le_src :: "nat option"
  le_dst :: "nat option"
  le_proposed :: real
  le_allowed :: bool
  le_amount :: real
  le_policy :: string
  le_src_consents :: bool
  le_dst_consents :: bool
  le_reason :: string

record EthicsEngine =
  policy :: SovereigntyPolicy
  cfg :: EthicsConfig
  ledger :: "ledger_entry list"

text \<open>\<open>decide_consent\<close> reads the process-wide generator only when the flag is undecided.\<close>

definition decide_consent ::
  "('g, 'r) randlib \<Rightarrow> EthicsEngine \<Rightarrow> bool option \<Rightarrow> 'r \<Rightarrow> bool \<times> 'r" where
  "decide_consent lib self current py =
     (case current of
        Some c \<Rightarrow> (c, py)
      | None \<Rightarrow> (let (x, py') = random_random lib py in (x < consent_prob (cfg self), py')))"

text \<open>
  \<open>check_and_record\<close> returns the triple \<open>(allowed, amt, reason)\<close> and the engine
  with the ledger extended by one entry.
\<close>

definition check_and_record ::
  "EthicsEngine \<Rightarrow> nat \<Rightarrow> string \<Rightarrow> nat option \<Rightarrow> nat option \<Rightarrow> real \<Rightarrow> bool \<Rightarrow> bool
     \<Rightarrow> (bool \<times> real \<times> string) \<times> EthicsEngine" where
  "check_and_record self t ev_type src_id dst_id proposed_amt src_consents dst_consents =
     (let (allowed, reason, amt) =
        (if \<not> allows_export (policy self) then (False, ''policy_closed'', proposed_amt)
         else if mode (policy self) = ''consensual'' then
           (if \<not> (src_consents \<and> (if dst_id \<noteq> None then dst_consents else True))
            then (False, ''no_consent'', proposed_amt)
            else (True, ''ok'', proposed_amt * (scale (policy self) * strictness (cfg self))))
         else (True, ''ok'', proposed_amt * (scale (policy self) * strictness (cfg self))));
        amt = max 0 amt;
        entry = \<lparr>le_t = t, le_type = ev_type, le_src = src_id, le_dst = dst_id,
                 le_proposed = proposed_amt, le_allowed = allowed,
                 le_amount = (if allowed then amt else 0),
                 le_policy = mode (policy self),
                 le_src_consents = src_consents, le_dst_consents = dst_consents,
                 le_reason = reason\<rparr>
      in ((allowed, amt, reason), self\<lparr>ledger := ledger self @ [entry]\<rparr>))"

subsection \<open>Bubbles and the multiverse\<close>

record Bubble =
  bubble_id :: nat
  inflation_rate :: real
  invariants :: real
  stable :: bool
  parent_id :: "nat option"
  consent :: "bool option"

record 'g Multiverse =
  rng :: 'g
  mv_policy :: SovereigntyPolicy
  ethics :: EthicsEngine
  drift_sigma :: real
  tunnel_rate :: real
  decay_rate :: real
  decay_inflection :: real
  decay_slope :: real
  birth_export_mean :: real
  birth_export_sigma :: real
  collapse_export_frac :: real
  max_bubbles :: int
  universes :: "Bubble list"
  mv_t :: nat
  exported_total :: real

text \<open>The arguments of \<open>Multiverse.__init__\<close>.\<close>

record MultiverseArgs =
  arg_n_initial :: int
  arg_seed :: "int option"
  arg_policy :: string
  arg_ethics_cfg :: EthicsConfig
  arg_drift_sigma :: real
  arg_tunnel_rate :: real
  arg_decay_rate :: real
  arg_decay_inflection :: real
  arg_decay_slope :: real
  arg_birth_export_mean :: real
  arg_birth_export_sigma :: real
  arg_collapse_export_frac :: real
  arg_max_bubbles :: int
  arg_inf_mean :: real
  arg_inf_sigma :: real

text \<open>
  The founder loop of the constructor: one normal draw from the NumPy generator and one
  consent draw from the process-wide generator per founder, the id being the length of
  the list so far.
\<close>

primrec founders ::
  "('g, 'r) randlib \<Rightarrow> EthicsEngine \<Rightarrow> real \<Rightarrow> real \<Rightarrow> nat \<Rightarrow> 'g \<times> 'r \<times> Bubble list
     \<Rightarrow> 'g \<times> 'r \<times> Bubble list" where
  "founders lib eng inf_mean inf_sigma 0 s = s"
| "founders lib eng inf_mean inf_sigma (Suc k) s =
     (let (g, py, us) = s;
          (x, g') = rng_normal lib g inf_mean inf_sigma;
          inf = max 0 x;
          (c, py') = decide_consent lib eng None py;
          b = \<lparr>bubble_id = length us, inflation_rate = inf, invariants = 0, stable = True,
               parent_id = None, consent = Some c\<rparr>
      in founders lib eng inf_mean inf_sigma k (g', py', us @ [b]))"

text \<open>
  The constructor. With \<open>seed = None\<close> both generators are seeded from operating-system
  entropy, here the argument \<open>entropy\<close>. The state \<open>py\<close> of the process-wide generator
  before the call is overwritten by \<open>random.seed\<close>. The result is the new object, or the
  \<open>ValueError\<close> of the policy constructor, with the state of the process-wide generator
  when the constructor ends: reseeded, and advanced by the founders' consent draws.
\<close>

definition Multiverse_init ::
  "('g, 'r) randlib \<Rightarrow> 'g \<times> 'r \<Rightarrow> MultiverseArgs \<Rightarrow> 'r \<Rightarrow> (error + 'g Multiverse) \<times> 'r" where
  "Multiverse_init lib entropy a py =
     (let g0 = (case arg_seed a of Some s \<Rightarrow> default_rng lib s | None \<Rightarrow> fst entropy);
          py0 = (case arg_seed a of Some s \<Rightarrow> random_seed lib s | None \<Rightarrow> snd entropy)
      in case SovereigntyPolicy_init (arg_policy a) of
           Inl e \<Rightarrow> (Inl e, py0)
         | Inr p \<Rightarrow>
            (let eng = \<lparr>policy = p, cfg = arg_ethics_cfg a, ledger = []\<rparr>;
                 (g1, py1, us) =
                    founders lib eng (arg_inf_mean a) (arg_inf_sigma a) (nat (arg_n_initial a))
                      (g0, py0, [])
             in (Inr \<lparr>rng = g1, mv_policy = p, ethics = eng,
                       drift_sigma = arg_drift_sigma a, tunnel_rate = arg_tunnel_rate a,
                       decay_rate = arg_decay_rate a,
                       decay_inflection = arg_decay_inflection a,
                       decay_slope = arg_decay_slope a,
                       birth_export_mean = arg_birth_export_mean a,
                       birth_export_sigma = arg_birth_export_sigma a,
                       collapse_export_frac = arg_collapse_export_frac a,
                       max_bubbles = arg_max_bubbles a,
                       universes = us, mv_t = 0, exported_total = 0\<rparr>, py1)))"

text \<open>
  What code that calls the constructor continues with: the new object and the process-wide
  generator, or the exception, which ends the caller.
\<close>

definition new_Multiverse ::
  "('g, 'r) randlib \<Rightarrow> 'g \<times> 'r \<Rightarrow> MultiverseArgs \<Rightarrow> 'r \<Rightarrow> error + ('g Multiverse \<times> 'r)" where
  "new_Multiverse lib entropy a py =
     (case Multiverse_init lib entropy a py of
        (Inl e, py') \<Rightarrow> Inl e
      | (Inr m, py') \<Rightarrow> Inr (m, py'))"

subsection \<open>One step\<close>

definition collapse_prob :: "'g Multiverse \<Rightarrow> Bubble \<Rightarrow> real" where
  "collapse_prob self u =
     (let x = inflation_rate u - decay_inflection self;
          logistic = 1 / (1 + exp (- decay_slope self * x));
          p = decay_rate self * (0.5 + logistic)
      in min 0.95 (max 0 p))"

text \<open>
  The state of the loop of \<open>step\<close>: the object (whose bubbles are updated in place), the
  children spawned so far in this tick, and the process-wide generator.
\<close>

record ('g, 'r) frame =
  self_mv :: "'g Multiverse"
  new_universes :: "Bubble list"
  py_state :: 'r

definition put_bubble :: "nat \<Rightarrow> Bubble \<Rightarrow> 'g Multiverse \<Rightarrow> 'g Multiverse" where
  "put_bubble i u m = m\<lparr>universes := (universes m)[i := u]\<rparr>"

text \<open>The four operations of the loop body on the bubble at position \<open>i\<close>, in source order.\<close>

definition drift :: "('g, 'r) randlib \<Rightarrow> nat \<Rightarrow> ('g, 'r) frame \<Rightarrow> ('g, 'r) frame" where
  "drift lib i f =
     (let m = self_mv f;
          u = universes m ! i;
          (z, g') = rng_normal lib (rng m) 0 (drift_sigma m);
          u' = u\<lparr>inflation_rate := max 0 (inflation_rate u + z)\<rparr>
      in f\<lparr>self_mv := put_bubble i u' (m\<lparr>rng := g'\<rparr>)\<rparr>)"

definition production :: "nat \<Rightarrow> ('g, 'r) frame \<Rightarrow> ('g, 'r) frame" where
  "production i f =
     (let m = self_mv f;
          u = universes m ! i;
          u' = u\<lparr>invariants := invariants u + (0.05 + 0.15 * inflation_rate u)\<rparr>
      in f\<lparr>self_mv := put_bubble i u' m\<rparr>)"

definition tunneling :: "('g, 'r) randlib \<Rightarrow> nat \<Rightarrow> ('g, 'r) frame \<Rightarrow> ('g, 'r) frame" where
  "tunneling lib i f =
     (let m = self_mv f;
          u = universes m ! i
      in if int (length (universes m) + length (new_universes f)) < max_bubbles m then
           (let (r, g1) = rng_random lib (rng m)
            in if r < tunnel_rate m then
                 (let (x, g2) = rng_normal lib g1 (inflation_rate u) 0.05;
                      child_inf = max 0 x;
                      (child_consent, py1) =
                        (if inherit_consent (cfg (ethics m)) then (consent u, py_state f)
                         else (let (c, py') = decide_consent lib (ethics m) None (py_state f)
                               in (Some c, py')));
                      child = \<lparr>bubble_id = length (universes m) + length (new_universes f),
                               inflation_rate = child_inf, invariants = 0, stable = True,
                               parent_id = Some (bubble_id u), consent = child_consent\<rparr>;
                      (y, g3) = rng_normal lib g2 (birth_export_mean m) (birth_export_sigma m);
                      proposed = min (max 0 y) (invariants u);
                      (src_c, py2) = decide_consent lib (ethics m) (consent u) py1;
                      (dst_c, py3) = decide_consent lib (ethics m) (consent child) py2;
                      ((allowed, amt, _), eng') =
                        check_and_record (ethics m) (mv_t m) ''birth''
                          (Some (bubble_id u)) (Some (bubble_id child)) proposed src_c dst_c;
                      transfer = (allowed \<and> amt > 0);
                      u' = (if transfer then u\<lparr>invariants := invariants u - amt\<rparr> else u);
                      child' = (if transfer then child\<lparr>invariants := invariants child + amt\<rparr>
                                else child);
                      total' = (if transfer then exported_total m + amt else exported_total m)
                  in \<lparr>self_mv = put_bubble i u'
                                  (m\<lparr>rng := g3, ethics := eng', exported_total := total'\<rparr>),
                      new_universes = new_universes f @ [child'],
                      py_state = py3\<rparr>)
               else f\<lparr>self_mv := m\<lparr>rng := g1\<rparr>\<rparr>)
         else f)"

definition collapse :: "('g, 'r) randlib \<Rightarrow> nat \<Rightarrow> ('g, 'r) frame \<Rightarrow> ('g, 'r) frame" where
  "collapse lib i f =
     (let m = self_mv f;
          u = universes m ! i;
          (r, g1) = rng_random lib (rng m)
      in if r < collapse_prob m u then
           (let proposed = collapse_export_frac m * invariants u;
                (src_c, py1) = decide_consent lib (ethics m) (consent u) (py_state f);
                ((allowed, amt, _), eng') =
                  check_and_record (ethics m) (mv_t m) ''collapse''
                    (Some (bubble_id u)) None proposed src_c True;
                total' = (if allowed \<and> amt > 0 then exported_total m + amt
                          else exported_total m);
                u' = u\<lparr>invariants := 0, stable := False\<rparr>
            in \<lparr>self_mv = put_bubble i u'
                            (m\<lparr>rng := g1, ethics := eng', exported_total := total'\<rparr>),
                new_universes = new_universes f,
                py_state = py1\<rparr>)
         else f\<lparr>self_mv := m\<lparr>rng := g1\<rparr>\<rparr>)"

text \<open>The loop body: a bubble that is not stable is skipped.\<close>

definition step_body :: "('g, 'r) randlib \<Rightarrow> ('g, 'r) frame \<Rightarrow> nat \<Rightarrow> ('g, 'r) frame" where
  "step_body lib f i =
     (if \<not> stable (universes (self_mv f) ! i) then f
      else collapse lib i (tunneling lib i (production i (drift lib i f))))"

text \<open>
  The loop runs over the bubbles present when the tick starts, in list order; the list is
  only extended after the loop. \<open>step_loop lib k f\<close> is the frame after the first \<open>k\<close>
  bubbles.
\<close>

definition step_loop :: "('g, 'r) randlib \<Rightarrow> nat \<Rightarrow> ('g, 'r) frame \<Rightarrow> ('g, 'r) frame" where
  "step_loop lib k f = foldl (step_body lib) f [0..<k]"

definition step_begin :: "'g Multiverse \<times> 'r \<Rightarrow> ('g, 'r) frame" where
  "step_begin w = \<lparr>self_mv = (fst w)\<lparr>mv_t := mv_t (fst w) + 1\<rparr>, new_universes = [],
                   py_state = snd w\<rparr>"

definition step_end :: "('g, 'r) frame \<Rightarrow> 'g Multiverse \<times> 'r" where
  "step_end f =
     ((self_mv f)\<lparr>universes := universes (self_mv f) @ new_universes f\<rparr>, py_state f)"

definition step :: "('g, 'r) randlib \<Rightarrow> 'g Multiverse \<times> 'r \<Rightarrow> 'g Multiverse \<times> 'r" where
  "step lib w = step_end (step_loop lib (length (universes (fst w))) (step_begin w))"

primrec run_steps :: "('g, 'r) randlib \<Rightarrow> nat \<Rightarrow> 'g Multiverse \<times> 'r \<Rightarrow> 'g Multiverse \<times> 'r" where
  "run_steps lib 0 w = w"
| "run_steps lib (Suc n) w = step lib (run_steps lib n w)"

subsection \<open>Metrics and a whole run\<close>

record metrics_row =
  m_t :: nat
  m_universes_total :: nat
  m_universes_stable :: nat
  m_RCI :: real
  m_exported :: real
  m_mean_inflation :: real
  m_mean_invariants :: real

definition mean :: "real list \<Rightarrow> real" where
  "mean xs = sum_list xs / real (length xs)"

definition metrics :: "'g Multiverse \<Rightarrow> metrics_row" where
  "metrics self =
     (let total = length (universes self);
          stable_n = length (filter stable (universes self))
      in \<lparr>m_t = mv_t self,
          m_universes_total = total,
          m_universes_stable = stable_n,
          m_RCI = (if total \<noteq> 0 then real stable_n / real total else 0),
          m_exported = exported_total self,
          m_mean_inflation =
            (if stable_n \<noteq> 0 then mean (map inflation_rate (filter stable (universes self)))
             else 0),
          m_mean_invariants =
            (if stable_n \<noteq> 0 then mean (map invariants (filter stable (universes self)))
             else 0)\<rparr>)"

text \<open>
  The loop of \<open>run\<close>: one metrics row after every step, after the row of the state
  before the first step.
\<close>

primrec history :: "('g, 'r) randlib \<Rightarrow> nat \<Rightarrow> 'g Multiverse \<times> 'r \<Rightarrow> metrics_row list" where
  "history lib 0 w = [metrics (fst w)]"
| "history lib (Suc n) w = history lib n w @ [metrics (fst (run_steps lib (Suc n) w))]"


text \<open>
  \<open>simulate\<close> is \<open>run\<close> without its file and plot output: it constructs the object,
  steps it \<open>n\<close> times and returns what a caller observes, the metrics rows and the
  ledger, with the state in which it leaves the process-wide generator.
\<close>

definition simulate ::
  "('g, 'r) randlib \<Rightarrow> 'g \<times> 'r \<Rightarrow> MultiverseArgs \<Rightarrow> nat \<Rightarrow> 'r
     \<Rightarrow> error + ((metrics_row list \<times> ledger_entry list) \<times> 'r)" where
  "simulate lib entropy a n py =
     (case new_Multiverse lib entropy a py of
        Inl e \<Rightarrow> Inl e
      | Inr w \<Rightarrow> Inr ((history lib n w, ledger (ethics (fst (run_steps lib n w)))),
                      snd (run_steps lib n w)))"

subsection \<open>Two runs in one process\<close>

text \<open>
  A caller that compares two runs holds two \<open>Multiverse\<close> objects in one Python process.
  Each object owns its NumPy generator; the generator of the \<open>random\<close> module is shared.
  \<open>two_runs_sequential\<close> finishes the first run before it constructs the second;
  \<open>two_runs_interleaved\<close> constructs both and then steps them in turn.
\<close>

definition two_runs_sequential ::
  "('g, 'r) randlib \<Rightarrow> 'g \<times> 'r \<Rightarrow> 'g \<times> 'r \<Rightarrow> MultiverseArgs \<Rightarrow> nat \<Rightarrow> 'r
     \<Rightarrow> error + ((metrics_row list \<times> ledger_entry list) \<times> (metrics_row list \<times> ledger_entry list))" where
  "two_runs_sequential lib entropy1 entropy2 a n py =
     (case simulate lib entropy1 a n py of
        Inl e \<Rightarrow> Inl e
      | Inr (obs1, py1) \<Rightarrow>
          (case simulate lib entropy2 a n py1 of
             Inl e \<Rightarrow> Inl e
           | Inr (obs2, py2) \<Rightarrow> Inr (obs1, obs2)))"

primrec alternate ::
  "('g, 'r) randlib \<Rightarrow> nat
     \<Rightarrow> ('g Multiverse \<times> metrics_row list) \<times> ('g Multiverse \<times> metrics_row list) \<times> 'r
     \<Rightarrow> ('g Multiverse \<times> metrics_row list) \<times> ('g Multiverse \<times> metrics_row list) \<times> 'r" where
  "alternate lib 0 s = s"
| "alternate lib (Suc n) s =
     (let ((m1, h1), (m2, h2), py) = alternate lib n s;
          (m1', py1) = step lib (m1, py);
          (m2', py2) = step lib (m2, py1)
      in ((m1', h1 @ [metrics m1']), (m2', h2 @ [metrics m2']), py2))"

definition two_runs_interleaved ::
  "('g, 'r) randlib \<Rightarrow> 'g \<times> 'r \<Rightarrow> 'g \<times> 'r \<Rightarrow> MultiverseArgs \<Rightarrow> nat \<Rightarrow> 'r
     \<Rightarrow> error + ((metrics_row list \<times> ledger_entry list) \<times> (metrics_row list \<times> ledger_entry list))" where
  "two_runs_interleaved lib entropy1 entropy2 a n py =
     (case new_Multiverse lib entropy1 a py of
        Inl e \<Rightarrow> Inl e
      | Inr (m1, py1) \<Rightarrow>
          (case new_Multiverse lib entropy2 a py1 of
             Inl e \<Rightarrow> Inl e
           | Inr (m2, py2) \<Rightarrow>
               (let ((m1', h1), (m2', h2), py3) =
                      alternate lib n ((m1, [metrics m1]), (m2, [metrics m2]), py2)
                in Inr ((h1, ledger (ethics m1')), (h2, ledger (ethics m2'))))))"

subsection \<open>Concrete inputs for the examples\<close>

text \<open>
  A scripted generator pair for evaluating the definitions. The state is the list of
  uniform draws still to come: \<open>True\<close> is the draw 0, \<open>False\<close> (and an exhausted list)
  the draw 0.99. \<open>rng.normal\<close> returns its mean. Seeding installs the script.
\<close>

definition draw :: "bool list \<Rightarrow> real \<times> bool list" where
  "draw g = (case g of [] \<Rightarrow> (0.99, []) | b # bs \<Rightarrow> (if b then 0 else 0.99, bs))"

definition tape_lib :: "bool list \<Rightarrow> bool list \<Rightarrow> (bool list, bool list) randlib" where
  "tape_lib us cs = \<lparr>default_rng = (\<lambda>s. us),
                     rng_normal = (\<lambda>g m s. (m, g)),
                     rng_random = draw,
                     random_seed = (\<lambda>s. cs),
                     random_random = draw\<rparr>"

text \<open>The defaults of \<open>EthicsConfig\<close> and of \<open>Multiverse.__init__\<close>, with seed 0.\<close>

definition default_cfg :: EthicsConfig where
  "default_cfg = \<lparr>consent_prob = 0.85, inherit_consent = True, strictness = 1\<rparr>"

definition default_args :: MultiverseArgs where
  "default_args =
     \<lparr>arg_n_initial = 1, arg_seed = Some 0, arg_policy = ''closed'',
      arg_ethics_cfg = default_cfg,
      arg_drift_sigma = 0.05, arg_tunnel_rate = 0.05, arg_decay_rate = 0.01,
      arg_decay_inflection = 1.2, arg_decay_slope = 2,
      arg_birth_export_mean = 0.2, arg_birth_export_sigma = 0.08,
      arg_collapse_export_frac = 0.2, arg_max_bubbles = 20000,
      arg_inf_mean = 1.2, arg_inf_sigma = 0.1\<rparr>"

definition engine_of :: "string \<Rightarrow> EthicsConfig \<Rightarrow> EthicsEngine" where
  "engine_of m c = \<lparr>policy = \<lparr>mode = m\<rparr>, cfg = c, ledger = []\<rparr>"

subsection \<open>Notions used in the statements\<close>

text \<open>All bubbles that exist at a point of the loop: the list and the children queued so far.\<close>

definition bubbles :: "('g, 'r) frame \<Rightarrow> Bubble list" where
  "bubbles f = universes (self_mv f) @ new_universes f"

text \<open>The frame between two ticks: no child is queued.\<close>

definition frame_of :: "'g Multiverse \<times> 'r \<Rightarrow> ('g, 'r) frame" where
  "frame_of w = \<lparr>self_mv = fst w, new_universes = [], py_state = snd w\<rparr>"

text \<open>
  The frames the loop body passes through on the bubble at position \<open>i\<close>, starting from
  \<open>f\<close>: before the body, and after drift, production, tunneling and collapse. (For a
  bubble that is not stable the body is skipped and only \<open>f\<close> occurs.)
\<close>

definition body_frames :: "('g, 'r) randlib \<Rightarrow> ('g, 'r) frame \<Rightarrow> nat \<Rightarrow> ('g, 'r) frame list" where
  "body_frames lib f i =
     (let f1 = drift lib i f; f2 = production i f1; f3 = tunneling lib i f2;
          f4 = collapse lib i f3
      in [f, f1, f2, f3, f4])"

text \<open>The fields of the object that no operation of \<open>step\<close> assigns.\<close>

definition static ::
  "'g Multiverse \<Rightarrow> SovereigntyPolicy \<times> SovereigntyPolicy \<times> EthicsConfig \<times> real \<times> real \<times> real
     \<times> real \<times> real \<times> real \<times> real \<times> real \<times> int" where
  "static m = (mv_policy m, policy (ethics m), cfg (ethics m), drift_sigma m, tunnel_rate m,
     decay_rate m, decay_inflection m, decay_slope m, birth_export_mean m,
     birth_export_sigma m, collapse_export_frac m, max_bubbles m)"


definition closed_inv :: "('g, 'r) frame \<Rightarrow> bool" where
  "closed_inv f \<longleftrightarrow> \<not> allows_export (policy (ethics (self_mv f))) \<and>
     exported_total (self_mv f) = 0 \<and>
     (\<forall>e \<in> set (ledger (ethics (self_mv f))). \<not> le_allowed e \<and> le_reason e = ''policy_closed'')"

definition ids_ok :: "('g, 'r) frame \<Rightarrow> bool" where
  "ids_ok f \<longleftrightarrow> map bubble_id (bubbles f) = [0..<length (bubbles f)]"




definition consents_known :: "('g, 'r) frame \<Rightarrow> bool" where
  "consents_known f \<longleftrightarrow> inherit_consent (cfg (ethics (self_mv f))) \<and>
     (\<forall>u \<in> set (bubbles f). consent u \<noteq> None)"

section \<open>Verification\<close>

subsection \<open>Facts about \<open>check_and_record\<close> and the loop\<close>

lemma car_policy [simp]: "policy (snd (check_and_record e t ty s d a sc dc)) = policy e"
  by (simp add: check_and_record_def Let_def case_prod_beta)
lemma car_cfg [simp]: "cfg (snd (check_and_record e t ty s d a sc dc)) = cfg e"
  by (simp add: check_and_record_def Let_def case_prod_beta)



lemma static_drift [simp]: "static (self_mv (drift lib i f)) = static (self_mv f)"
  by (simp add: drift_def static_def put_bubble_def Let_def case_prod_beta)
lemma static_production [simp]: "static (self_mv (production i f)) = static (self_mv f)"
  by (simp add: production_def static_def put_bubble_def Let_def case_prod_beta)
lemma static_tunneling [simp]: "static (self_mv (tunneling lib i f)) = static (self_mv f)"
  by (simp add: tunneling_def static_def put_bubble_def Let_def case_prod_beta)
lemma static_collapse [simp]: "static (self_mv (collapse lib i f)) = static (self_mv f)"
  by (simp add: collapse_def static_def put_bubble_def Let_def case_prod_beta)

lemma len_drift [simp]: "length (universes (self_mv (drift lib i f))) = length (universes (self_mv f))"
  by (simp add: drift_def put_bubble_def Let_def case_prod_beta)
lemma len_production [simp]: "length (universes (self_mv (production i f))) = length (universes (self_mv f))"
  by (simp add: production_def put_bubble_def Let_def case_prod_beta)
lemma len_tunneling [simp]: "length (universes (self_mv (tunneling lib i f))) = length (universes (self_mv f))"
  by (simp add: tunneling_def put_bubble_def Let_def case_prod_beta)
lemma len_collapse [simp]: "length (universes (self_mv (collapse lib i f))) = length (universes (self_mv f))"
  by (simp add: collapse_def put_bubble_def Let_def case_prod_beta)

lemma step_loop_Suc: "step_loop lib (Suc k) f = step_body lib (step_loop lib k f) k"
  by (simp add: step_loop_def)
lemma step_loop_0 [simp]: "step_loop lib 0 f = f"
  by (simp add: step_loop_def)

lemma static_step_body [simp]: "static (self_mv (step_body lib f i)) = static (self_mv f)"
  by (simp add: step_body_def)
lemma len_step_body [simp]: "length (universes (self_mv (step_body lib f i))) = length (universes (self_mv f))"
  by (simp add: step_body_def)
lemma static_step_loop [simp]: "static (self_mv (step_loop lib k f)) = static (self_mv f)"
  by (induction k) (simp_all add: step_loop_Suc)
lemma len_step_loop [simp]: "length (universes (self_mv (step_loop lib k f))) = length (universes (self_mv f))"
  by (induction k) (simp_all add: step_loop_Suc)

lemma step_loop_invariant:
  assumes "P f" and "k \<le> length (universes (self_mv f))"
    and "\<And>f i. P f \<Longrightarrow> i < length (universes (self_mv f)) \<Longrightarrow> P (drift lib i f)"
    and "\<And>f i. P f \<Longrightarrow> i < length (universes (self_mv f)) \<Longrightarrow> P (production i f)"
    and "\<And>f i. P f \<Longrightarrow> i < length (universes (self_mv f)) \<Longrightarrow> P (tunneling lib i f)"
    and "\<And>f i. P f \<Longrightarrow> i < length (universes (self_mv f)) \<Longrightarrow> P (collapse lib i f)"
  shows "P (step_loop lib k f)"
  using assms(2)
proof (induction k)
  case 0
  show ?case using assms(1) by simp
next
  case (Suc k)
  then have P: "P (step_loop lib k f)" and k: "k < length (universes (self_mv (step_loop lib k f)))"
    by simp_all
  show ?case unfolding step_loop_Suc step_body_def
    using P k assms(3-6) by simp
qed





lemma car_closed:
  "\<not> allows_export (policy e) \<Longrightarrow>
     check_and_record e t ty s d a sc dc =
       ((False, max 0 a, ''policy_closed''),
        e\<lparr>ledger := ledger e @ [\<lparr>le_t = t, le_type = ty, le_src = s, le_dst = d,
                 le_proposed = a, le_allowed = False, le_amount = 0,
                 le_policy = mode (policy e), le_src_consents = sc, le_dst_consents = dc,
                 le_reason = ''policy_closed''\<rparr>]\<rparr>)"
  by (simp add: check_and_record_def Let_def)

lemma closed_drift: "closed_inv f \<Longrightarrow> closed_inv (drift lib i f)"
  by (simp add: closed_inv_def drift_def put_bubble_def Let_def case_prod_beta)
lemma closed_production: "closed_inv f \<Longrightarrow> closed_inv (production i f)"
  by (simp add: closed_inv_def production_def put_bubble_def Let_def case_prod_beta)
lemma closed_tunneling: "closed_inv f \<Longrightarrow> closed_inv (tunneling lib i f)"
  by (simp add: closed_inv_def tunneling_def put_bubble_def Let_def case_prod_beta car_closed)
lemma closed_collapse: "closed_inv f \<Longrightarrow> closed_inv (collapse lib i f)"
  by (simp add: closed_inv_def collapse_def put_bubble_def Let_def case_prod_beta car_closed)

lemma map_update_same: "i < length xs \<Longrightarrow> g y = g (xs ! i) \<Longrightarrow> map g (xs[i := y]) = map g xs"
  by (simp add: map_update list_update_same_conv)

lemma ids_drift: "ids_ok f \<Longrightarrow> i < length (universes (self_mv f)) \<Longrightarrow> ids_ok (drift lib i f)"
  by (simp add: ids_ok_def bubbles_def drift_def put_bubble_def Let_def case_prod_beta map_update_same)
lemma ids_production: "ids_ok f \<Longrightarrow> i < length (universes (self_mv f)) \<Longrightarrow> ids_ok (production i f)"
  by (simp add: ids_ok_def bubbles_def production_def put_bubble_def Let_def case_prod_beta map_update_same)
lemma ids_collapse: "ids_ok f \<Longrightarrow> i < length (universes (self_mv f)) \<Longrightarrow> ids_ok (collapse lib i f)"
  by (simp add: ids_ok_def bubbles_def collapse_def put_bubble_def Let_def case_prod_beta map_update_same)
lemma ids_tunneling: "ids_ok f \<Longrightarrow> i < length (universes (self_mv f)) \<Longrightarrow> ids_ok (tunneling lib i f)"
  by (simp add: ids_ok_def bubbles_def tunneling_def put_bubble_def Let_def case_prod_beta map_update_same)








lemma founders_length:
  "length (snd (snd (founders lib e mu sg k (g, py, us)))) = length us + k"
  by (induction k arbitrary: g py us) (simp_all add: Let_def case_prod_beta)

lemma founders_ids:
  "map bubble_id us = [0..<length us] \<Longrightarrow>
   map bubble_id (snd (snd (founders lib e mu sg k (g, py, us)))) = [0..<length us + k]"
  by (induction k arbitrary: g py us) (simp_all add: Let_def case_prod_beta)

lemma founders_all:
  assumes "\<forall>u \<in> set us. Q u"
    and "\<And>i x c. Q \<lparr>bubble_id = i, inflation_rate = max 0 x, invariants = 0, stable = True,
               parent_id = None, consent = Some c\<rparr>"
  shows "\<forall>u \<in> set (snd (snd (founders lib e mu sg k (g, py, us)))). Q u"
  using assms(1)
proof (induction k arbitrary: g py us)
  case 0
  then show ?case by simp
next
  case (Suc k)
  have "\<forall>u \<in> set (us @ [\<lparr>bubble_id = length us,
          inflation_rate = max 0 (fst (rng_normal lib g mu sg)), invariants = 0, stable = True,
          parent_id = None, consent = Some (fst (decide_consent lib e None py))\<rparr>]). Q u"
    using Suc.prems assms(2) by simp
  from Suc.IH[OF this] show ?case by (simp add: Let_def case_prod_beta)
qed

lemma init_Inr:
  assumes "new_Multiverse lib entropy a py = Inr w"
  shows "arg_policy a \<in> {''closed'', ''consensual'', ''open''}"
    and "ethics (fst w) = \<lparr>policy = \<lparr>mode = arg_policy a\<rparr>, cfg = arg_ethics_cfg a, ledger = []\<rparr>"
    and "exported_total (fst w) = 0"
    and "max_bubbles (fst w) = arg_max_bubbles a"
    and "decay_rate (fst w) = arg_decay_rate a"
    and "universes (fst w) =
           snd (snd (founders lib \<lparr>policy = \<lparr>mode = arg_policy a\<rparr>, cfg = arg_ethics_cfg a, ledger = []\<rparr>
              (arg_inf_mean a) (arg_inf_sigma a) (nat (arg_n_initial a))
              (case arg_seed a of Some s \<Rightarrow> default_rng lib s | None \<Rightarrow> fst entropy,
               case arg_seed a of Some s \<Rightarrow> random_seed lib s | None \<Rightarrow> snd entropy, [])))"
proof -
  have v: "SovereigntyPolicy_init (arg_policy a) = Inr \<lparr>mode = arg_policy a\<rparr>"
    using assms by (cases "arg_policy a \<in> {''closed'', ''consensual'', ''open''}")
      (simp_all add: new_Multiverse_def Multiverse_init_def SovereigntyPolicy_init_def Let_def)
  then show "arg_policy a \<in> {''closed'', ''consensual'', ''open''}"
    by (simp add: SovereigntyPolicy_init_def split: if_splits)
  have w: "w = (fst w, snd w)" by simp
  show "ethics (fst w) = \<lparr>policy = \<lparr>mode = arg_policy a\<rparr>, cfg = arg_ethics_cfg a, ledger = []\<rparr>"
    using assms v by (auto simp: new_Multiverse_def Multiverse_init_def Let_def case_prod_beta)
  show "exported_total (fst w) = 0"
    using assms v by (auto simp: new_Multiverse_def Multiverse_init_def Let_def case_prod_beta)
  show "max_bubbles (fst w) = arg_max_bubbles a"
    using assms v by (auto simp: new_Multiverse_def Multiverse_init_def Let_def case_prod_beta)
  show "decay_rate (fst w) = arg_decay_rate a"
    using assms v by (auto simp: new_Multiverse_def Multiverse_init_def Let_def case_prod_beta)
  show "universes (fst w) =
           snd (snd (founders lib \<lparr>policy = \<lparr>mode = arg_policy a\<rparr>, cfg = arg_ethics_cfg a, ledger = []\<rparr>
              (arg_inf_mean a) (arg_inf_sigma a) (nat (arg_n_initial a))
              (case arg_seed a of Some s \<Rightarrow> default_rng lib s | None \<Rightarrow> fst entropy,
               case arg_seed a of Some s \<Rightarrow> random_seed lib s | None \<Rightarrow> snd entropy, [])))"
    using assms v by (auto simp: new_Multiverse_def Multiverse_init_def Let_def case_prod_beta)
qed


lemma init_ids: "new_Multiverse lib entropy a py = Inr w \<Longrightarrow> ids_ok (frame_of w)"
  using init_Inr(6)[of lib entropy a py w] founders_ids[of "[]"]
  by (auto simp: ids_ok_def frame_of_def bubbles_def founders_length)

lemma init_all:
  assumes "new_Multiverse lib entropy a py = Inr w"
    and "\<And>i x c. Q \<lparr>bubble_id = i, inflation_rate = max 0 x, invariants = 0, stable = True,
               parent_id = None, consent = Some c\<rparr>"
  shows "\<forall>u \<in> set (universes (fst w)). Q u"
proof -
  show ?thesis unfolding init_Inr(6)[OF assms(1)]
    using founders_all[of "[]" Q, OF _ assms(2)] by simp
qed

lemma run_invariant:
  assumes P0: "P (frame_of w0)"
    and d: "\<And>f i. P f \<Longrightarrow> i < length (universes (self_mv f)) \<Longrightarrow> P (drift lib i f)"
    and p: "\<And>f i. P f \<Longrightarrow> i < length (universes (self_mv f)) \<Longrightarrow> P (production i f)"
    and t: "\<And>f i. P f \<Longrightarrow> i < length (universes (self_mv f)) \<Longrightarrow> P (tunneling lib i f)"
    and c: "\<And>f i. P f \<Longrightarrow> i < length (universes (self_mv f)) \<Longrightarrow> P (collapse lib i f)"
    and b: "\<And>w. P (frame_of w) \<Longrightarrow> P (step_begin w)"
    and e: "\<And>f. P f \<Longrightarrow> P (frame_of (step_end f))"
  shows "P (frame_of (run_steps lib n w0))"
proof (induction n)
  case 0
  show ?case using P0 by simp
next
  case (Suc n)
  let ?w = "run_steps lib n w0"
  have "P (step_begin ?w)" using Suc b by blast
  moreover have "length (universes (fst ?w)) \<le> length (universes (self_mv (step_begin ?w)))"
    by (simp add: step_begin_def)
  ultimately have "P (step_loop lib (length (universes (fst ?w))) (step_begin ?w))"
    using d p t c by (intro step_loop_invariant[where P = P]) auto
  then show ?case using e by (simp add: step_def)
qed

lemma within_step_invariant:
  assumes P0: "P (frame_of w)"
    and d: "\<And>f i. P f \<Longrightarrow> i < length (universes (self_mv f)) \<Longrightarrow> P (drift lib i f)"
    and p: "\<And>f i. P f \<Longrightarrow> i < length (universes (self_mv f)) \<Longrightarrow> P (production i f)"
    and t: "\<And>f i. P f \<Longrightarrow> i < length (universes (self_mv f)) \<Longrightarrow> P (tunneling lib i f)"
    and c: "\<And>f i. P f \<Longrightarrow> i < length (universes (self_mv f)) \<Longrightarrow> P (collapse lib i f)"
    and b: "\<And>w. P (frame_of w) \<Longrightarrow> P (step_begin w)"
    and i: "i < length (universes (fst w))"
    and f: "f = step_loop lib i (step_begin w)"
  shows "P f \<and> P (drift lib i f) \<and> P (production i (drift lib i f))
         \<and> P (tunneling lib i (production i (drift lib i f)))
         \<and> P (collapse lib i (tunneling lib i (production i (drift lib i f))))"
proof -
  have len: "length (universes (self_mv (step_begin w))) = length (universes (fst w))"
    by (simp add: step_begin_def)
  have "P (step_begin w)" using P0 b by blast
  then have 0: "P f" unfolding f using d p t c i len by (intro step_loop_invariant[where P = P]) auto
  have l0: "i < length (universes (self_mv f))" using i len by (simp add: f)
  have 1: "P (drift lib i f)" using 0 l0 d by blast
  have 2: "P (production i (drift lib i f))" using 1 l0 p by simp
  have 3: "P (tunneling lib i (production i (drift lib i f)))" using 2 l0 t by simp
  have 4: "P (collapse lib i (tunneling lib i (production i (drift lib i f))))" using 3 l0 c by simp
  show ?thesis using 0 1 2 3 4 by blast
qed

subsection \<open>The invariants across a step and a run\<close>

lemma body_frames_invariant:
  assumes P0: "P (frame_of w)"
    and d: "\<And>f i. P f \<Longrightarrow> i < length (universes (self_mv f)) \<Longrightarrow> P (drift lib i f)"
    and p: "\<And>f i. P f \<Longrightarrow> i < length (universes (self_mv f)) \<Longrightarrow> P (production i f)"
    and t: "\<And>f i. P f \<Longrightarrow> i < length (universes (self_mv f)) \<Longrightarrow> P (tunneling lib i f)"
    and c: "\<And>f i. P f \<Longrightarrow> i < length (universes (self_mv f)) \<Longrightarrow> P (collapse lib i f)"
    and b: "\<And>w. P (frame_of w) \<Longrightarrow> P (step_begin w)"
    and i: "i < length (universes (fst w))"
  shows "\<forall>f \<in> set (body_frames lib (step_loop lib i (step_begin w)) i). P f"
  using within_step_invariant[of P w lib i "step_loop lib i (step_begin w)", OF P0 d p t c b i]
  by (simp add: body_frames_def Let_def)

text \<open>The loop body ends in the last of its frames.\<close>

lemma step_body_frames:
  "step_body lib f i = (if \<not> stable (universes (self_mv f) ! i) then f else last (body_frames lib f i))"
  by (simp add: step_body_def body_frames_def Let_def)

lemma bubbles_frame_of [simp]: "bubbles (frame_of w) = universes (fst w)"
  by (simp add: bubbles_def frame_of_def)

lemma self_frame_of [simp]: "self_mv (frame_of w) = fst w"
  by (simp add: frame_of_def)

lemma bubbles_step_end [simp]: "universes (fst (step_end f)) = bubbles f"
  by (simp add: step_end_def bubbles_def)


lemma closed_begin: "closed_inv (frame_of w) \<Longrightarrow> closed_inv (step_begin w)"
  by (simp add: closed_inv_def frame_of_def step_begin_def)
lemma closed_end: "closed_inv f \<Longrightarrow> closed_inv (frame_of (step_end f))"
  by (simp add: closed_inv_def frame_of_def step_end_def)
lemma closed_init:
  assumes "new_Multiverse lib entropy a py = Inr w" "arg_policy a = ''closed''"
  shows "closed_inv (frame_of w)"
  using assms(2) by (simp add: closed_inv_def init_Inr(2,3)[OF assms(1)] allows_export_def)

lemma ids_begin: "ids_ok (frame_of w) \<Longrightarrow> ids_ok (step_begin w)"
  by (simp add: ids_ok_def frame_of_def step_begin_def bubbles_def)
lemma ids_end: "ids_ok f \<Longrightarrow> ids_ok (frame_of (step_end f))"
  by (simp add: ids_ok_def)




lemma init_succeeds:
  "arg_policy a \<in> {''closed'', ''consensual'', ''open''} \<Longrightarrow>
     \<exists>w. new_Multiverse lib entropy a py = Inr w"
  by (auto simp: new_Multiverse_def Multiverse_init_def SovereigntyPolicy_init_def Let_def case_prod_beta)

lemma len_step_begin [simp]:
  "length (universes (self_mv (step_begin w))) = length (universes (fst w))"
  by (simp add: step_begin_def)

lemma cap_drift [simp]: "max_bubbles (self_mv (drift lib i f)) = max_bubbles (self_mv f)"
  using static_drift[of lib i f] by (simp add: static_def)
lemma cap_production [simp]: "max_bubbles (self_mv (production i f)) = max_bubbles (self_mv f)"
  using static_production[of i f] by (simp add: static_def)
lemma cap_tunneling [simp]: "max_bubbles (self_mv (tunneling lib i f)) = max_bubbles (self_mv f)"
  using static_tunneling[of lib i f] by (simp add: static_def)
lemma cap_collapse [simp]: "max_bubbles (self_mv (collapse lib i f)) = max_bubbles (self_mv f)"
  using static_collapse[of lib i f] by (simp add: static_def)
lemma cap_step_begin [simp]: "max_bubbles (self_mv (step_begin w)) = max_bubbles (fst w)"
  by (simp add: step_begin_def)
lemma cap_step_end [simp]: "max_bubbles (fst (step_end f)) = max_bubbles (self_mv f)"
  by (simp add: step_end_def)



lemma init_ignores_py:
  "arg_seed a = Some s \<Longrightarrow>
     new_Multiverse lib entropy1 a py1 = new_Multiverse lib entropy2 a py2"
  by (simp add: new_Multiverse_def Multiverse_init_def)

lemma exported_metrics: "m_exported (metrics m) = exported_total m"
  by (simp add: metrics_def Let_def)

lemma init_projr:
  "arg_policy a \<in> {''closed'', ''consensual'', ''open''} \<Longrightarrow>
     new_Multiverse lib entropy a py = Inr (projr (new_Multiverse lib entropy a py))"
  using init_succeeds[of a lib entropy py] by auto


text \<open>The definitions to unfold when a run is evaluated on concrete arguments.\<close>

lemmas sim_defs = new_Multiverse_def Multiverse_init_def SovereigntyPolicy_init_def decide_consent_def
  check_and_record_def scale_def allows_export_def step_def step_begin_def step_end_def
  step_loop_def step_body_def drift_def production_def tunneling_def collapse_def
  collapse_prob_def put_bubble_def tape_lib_def draw_def default_args_def default_cfg_def Let_def

subsection \<open>The policy and the authorization decision\<close>

text \<open>
  C9. Constructing a policy raises exactly when the mode is not one of the three literals,
  and then the constructor of \<open>Multiverse\<close> returns the error and no object; a valid mode
  is stored unchanged. \<open>scale\<close> is 1 for open, 0.5 for consensual and 0 for closed, and
  \<open>allows_export\<close> holds exactly for consensual and open.
\<close>

theorem policy_construction:
  "(SovereigntyPolicy_init m = Inl ValueError \<longleftrightarrow> m \<notin> {''closed'', ''consensual'', ''open''})
   \<and> (m \<in> {''closed'', ''consensual'', ''open''} \<longrightarrow> SovereigntyPolicy_init m = Inr \<lparr>mode = m\<rparr>)
   \<and> (arg_policy a \<notin> {''closed'', ''consensual'', ''open''}
        \<longrightarrow> fst (Multiverse_init lib entropy a py) = Inl ValueError
            \<and> new_Multiverse lib entropy a py = Inl ValueError)
   \<and> scale \<lparr>mode = ''open''\<rparr> = 1 \<and> scale \<lparr>mode = ''consensual''\<rparr> = 0.5
   \<and> scale \<lparr>mode = ''closed''\<rparr> = 0
   \<and> (m \<in> {''closed'', ''consensual'', ''open''}
        \<longrightarrow> (allows_export \<lparr>mode = m\<rparr> \<longleftrightarrow> m = ''consensual'' \<or> m = ''open''))"
  by (auto simp: SovereigntyPolicy_init_def new_Multiverse_def Multiverse_init_def scale_def allows_export_def
        Let_def)

text \<open>The theorem at the mode \<open>half-open\<close>, which is refused, with the default arguments.\<close>

theorem policy_construction_witness:
  "SovereigntyPolicy_init ''half-open'' = Inl ValueError
   \<and> fst (Multiverse_init (tape_lib [] []) ([], [])
             (default_args\<lparr>arg_policy := ''half-open''\<rparr>) []) = Inl ValueError"
  using policy_construction [of "''half-open''" "default_args\<lparr>arg_policy := ''half-open''\<rparr>"
      "tape_lib [] []" "([], [])" "[]"]
  by simp

text \<open>
  C1, as the code has it. A disallowed call (the policy allows no export, or the policy is
  consensual and the source or a present destination withholds consent) returns
  \<open>allowed = False\<close> with the reason \<open>policy_closed\<close> or \<open>no_consent\<close>; the amount it
  returns is the proposal floored at 0, not scaled; the amount written to the ledger entry
  is 0.
\<close>

theorem check_and_record_denied:
  assumes "\<not> allows_export (policy e) \<or>
           (mode (policy e) = ''consensual'' \<and> \<not> (sc \<and> (dst \<noteq> None \<longrightarrow> dc)))"
  shows "fst (check_and_record e t ty src dst amt sc dc) =
           (False, max 0 amt,
            if \<not> allows_export (policy e) then ''policy_closed'' else ''no_consent'')
         \<and> ledger (snd (check_and_record e t ty src dst amt sc dc)) =
             ledger e @ [\<lparr>le_t = t, le_type = ty, le_src = src, le_dst = dst,
                 le_proposed = amt, le_allowed = False, le_amount = 0,
                 le_policy = mode (policy e), le_src_consents = sc, le_dst_consents = dc,
                 le_reason = (if \<not> allows_export (policy e) then ''policy_closed''
                              else ''no_consent'')\<rparr>]"
  using assms by (auto simp: check_and_record_def Let_def)

text \<open>The theorem at a consensual engine whose source withholds consent.\<close>

theorem check_and_record_denied_witness:
  "fst (check_and_record (engine_of ''consensual'' default_cfg) 3 ''birth'' (Some 0) (Some 1)
          (1/4) False True) = (False, 1/4, ''no_consent'')
   \<and> map le_amount (ledger (snd (check_and_record (engine_of ''consensual'' default_cfg) 3
          ''birth'' (Some 0) (Some 1) (1/4) False True))) = [0]"
  using check_and_record_denied [of "engine_of ''consensual'' default_cfg" False "Some 1" True
      3 "''birth''" "Some 0" "1/4"]
  by (simp add: engine_of_def allows_export_def)

text \<open>
  C1, as the claim states it, fails: under the closed policy a collapse proposal of 1 is
  refused, and 1 is the amount returned.
\<close>

theorem check_and_record_denied_counterexample:
  "fst (check_and_record (engine_of ''closed'' default_cfg) 1 ''collapse'' (Some 0) None 1
          True True) = (False, 1, ''policy_closed'')
   \<and> fst (snd (fst (check_and_record (engine_of ''closed'' default_cfg) 1 ''collapse'' (Some 0)
          None 1 True True))) \<noteq> 0"
  by (simp add: check_and_record_def engine_of_def allows_export_def Let_def)

text \<open>
  C8. With strictness 0, a call under the open policy, or under the consensual policy with
  the source consenting and a present destination consenting, is allowed and returns the
  amount 0, whatever was proposed.
\<close>

theorem strictness_zero:
  assumes "strictness (cfg e) = 0"
    and "mode (policy e) = ''open'' \<or>
         (mode (policy e) = ''consensual'' \<and> sc \<and> (dst \<noteq> None \<longrightarrow> dc))"
  shows "fst (check_and_record e t ty src dst amt sc dc) = (True, 0, ''ok'')"
  using assms by (auto simp: check_and_record_def Let_def allows_export_def)

text \<open>The theorem at an open engine with strictness 0 and a proposal of 7.\<close>

theorem strictness_zero_witness:
  "fst (check_and_record (engine_of ''open'' (default_cfg\<lparr>strictness := 0\<rparr>)) 2 ''birth''
          (Some 0) (Some 1) 7 False False) = (True, 0, ''ok'')"
  using strictness_zero [of "engine_of ''open'' (default_cfg\<lparr>strictness := 0\<rparr>)" False
      "Some 1" False 2 "''birth''" "Some 0" 7]
  by (simp add: engine_of_def default_cfg_def)

subsection \<open>Independence of the process-wide generator\<close>

lemma sequential_agree:
  assumes "arg_seed a = Some s"
    and "two_runs_sequential lib entropy1 entropy2 a n py = Inr (obs1, obs2)"
  shows "obs1 = obs2"
proof -
  have eq: "simulate lib entropy1 a n p1 = simulate lib entropy2 a n p2" for p1 p2
    using init_ignores_py[OF assms(1), of lib entropy1 p1 entropy2 p2]
    by (simp add: simulate_def)
  obtain py1 where 1: "simulate lib entropy1 a n py = Inr (obs1, py1)"
    using assms(2) by (auto simp: two_runs_sequential_def split: sum.splits)
  then obtain py2 where 2: "simulate lib entropy2 a n py1 = Inr (obs2, py2)"
    using assms(2) by (auto simp: two_runs_sequential_def split: sum.splits)
  show ?thesis using 1 2 eq[of py py1] by simp
qed


lemma decide_known [simp]: "decide_consent lib e (Some c) py = (c, py)"
  by (simp add: decide_consent_def)

lemma known_at:
  "consents_known f \<Longrightarrow> i < length (universes (self_mv f)) \<Longrightarrow>
     \<exists>c. consent (universes (self_mv f) ! i) = Some c"
  by (auto simp: consents_known_def bubbles_def)

lemma known_py [simp]: "consents_known (f\<lparr>py_state := p\<rparr>) = consents_known f"
  by (simp add: consents_known_def bubbles_def)

lemma known_drift: "consents_known f \<Longrightarrow> i < length (universes (self_mv f)) \<Longrightarrow> consents_known (drift lib i f)"
  unfolding consents_known_def bubbles_def
  by (auto simp: drift_def put_bubble_def Let_def case_prod_beta dest!: subsetD[OF set_update_subset_insert])
lemma known_production: "consents_known f \<Longrightarrow> i < length (universes (self_mv f)) \<Longrightarrow> consents_known (production i f)"
  unfolding consents_known_def bubbles_def
  by (auto simp: production_def put_bubble_def Let_def case_prod_beta dest!: subsetD[OF set_update_subset_insert])
lemma known_tunneling: "consents_known f \<Longrightarrow> i < length (universes (self_mv f)) \<Longrightarrow> consents_known (tunneling lib i f)"
  unfolding consents_known_def bubbles_def
  by (auto simp: tunneling_def put_bubble_def Let_def case_prod_beta dest!: subsetD[OF set_update_subset_insert])
lemma known_collapse: "consents_known f \<Longrightarrow> i < length (universes (self_mv f)) \<Longrightarrow> consents_known (collapse lib i f)"
  unfolding consents_known_def bubbles_def
  by (auto simp: collapse_def put_bubble_def Let_def case_prod_beta dest!: subsetD[OF set_update_subset_insert])

lemma py_drift: "drift lib i (f\<lparr>py_state := p\<rparr>) = (drift lib i f)\<lparr>py_state := p\<rparr>"
  by (simp add: drift_def Let_def case_prod_beta)
lemma py_production: "production i (f\<lparr>py_state := p\<rparr>) = (production i f)\<lparr>py_state := p\<rparr>"
  by (simp add: production_def Let_def case_prod_beta)
lemma py_tunneling:
  assumes "consents_known f" "i < length (universes (self_mv f))"
  shows "tunneling lib i (f\<lparr>py_state := p\<rparr>) = (tunneling lib i f)\<lparr>py_state := p\<rparr>"
proof -
  obtain c where c: "consent (universes (self_mv f) ! i) = Some c"
    using known_at[OF assms] by blast
  have h: "inherit_consent (cfg (ethics (self_mv f)))" using assms(1) by (simp add: consents_known_def)
  show ?thesis
  proof (cases "int (length (universes (self_mv f)) + length (new_universes f)) < max_bubbles (self_mv f)")
    case False
    then show ?thesis by (simp add: tunneling_def Let_def)
  next
    case cap: True
    show ?thesis
    proof (cases "fst (rng_random lib (rng (self_mv f))) < tunnel_rate (self_mv f)")
      case False
      then show ?thesis using cap by (simp add: tunneling_def Let_def case_prod_beta)
    next
      case True
      then show ?thesis using cap
        by (simp add: tunneling_def Let_def case_prod_beta c h split del: if_split cong del: if_weak_cong)
    qed
  qed
qed

lemma py_collapse:
  assumes "consents_known f" "i < length (universes (self_mv f))"
  shows "collapse lib i (f\<lparr>py_state := p\<rparr>) = (collapse lib i f)\<lparr>py_state := p\<rparr>"
proof -
  obtain c where c: "consent (universes (self_mv f) ! i) = Some c"
    using known_at[OF assms] by blast
  show ?thesis by (simp add: collapse_def Let_def case_prod_beta c)
qed

lemma py_step_body:
  assumes "consents_known f" "i < length (universes (self_mv f))"
  shows "step_body lib (f\<lparr>py_state := p\<rparr>) i = (step_body lib f i)\<lparr>py_state := p\<rparr>"
proof -
  have 1: "consents_known (drift lib i f)" using assms by (rule known_drift)
  have 2: "consents_known (production i (drift lib i f))" using 1 assms(2) by (simp add: known_production)
  have 3: "consents_known (tunneling lib i (production i (drift lib i f)))"
    using 2 assms(2) by (simp add: known_tunneling)
  show ?thesis
    using assms(2) by (simp add: step_body_def py_drift py_production py_tunneling[OF 2] py_collapse[OF 3])
qed

lemma known_step_body:
  "consents_known f \<Longrightarrow> i < length (universes (self_mv f)) \<Longrightarrow> consents_known (step_body lib f i)"
  by (simp add: step_body_def known_drift known_production known_tunneling known_collapse)

lemma py_step_loop:
  assumes "consents_known f" "k \<le> length (universes (self_mv f))"
  shows "consents_known (step_loop lib k f) \<and>
         step_loop lib k (f\<lparr>py_state := p\<rparr>) = (step_loop lib k f)\<lparr>py_state := p\<rparr>"
  using assms(2)
proof (induction k)
  case 0
  show ?case using assms(1) by simp
next
  case (Suc k)
  then have ih: "consents_known (step_loop lib k f)"
    "step_loop lib k (f\<lparr>py_state := p\<rparr>) = (step_loop lib k f)\<lparr>py_state := p\<rparr>"
    and k: "k < length (universes (self_mv (step_loop lib k f)))" by simp_all
  show ?case
    by (simp add: step_loop_Suc ih(2) py_step_body[OF ih(1) k] known_step_body[OF ih(1) k])
qed

lemma known_begin: "consents_known (frame_of w) \<Longrightarrow> consents_known (step_begin w)"
  by (simp add: consents_known_def frame_of_def step_begin_def bubbles_def)
lemma known_end: "consents_known f \<Longrightarrow> consents_known (frame_of (step_end f))"
  by (simp add: consents_known_def frame_of_def step_end_def bubbles_def)

lemma step_py:
  assumes "consents_known (frame_of (m, q))"
  shows "step lib (m, p) = (fst (step lib (m, q)), p)"
    and "consents_known (frame_of (step lib (m, p)))"
proof -
  have b: "step_begin (m, p) = (step_begin (m, q))\<lparr>py_state := p\<rparr>"
    by (simp add: step_begin_def)
  have kb: "consents_known (step_begin (m, q))" using assms by (rule known_begin)
  have l: "length (universes m) \<le> length (universes (self_mv (step_begin (m, q))))" by simp
  note L = py_step_loop[OF kb l, of lib p]
  show "step lib (m, p) = (fst (step lib (m, q)), p)"
    using L by (simp add: step_def b step_end_def)
  show "consents_known (frame_of (step lib (m, p)))"
    using L known_end[of "(step_loop lib (length (universes m)) (step_begin (m, q)))\<lparr>py_state := p\<rparr>"]
    by (simp add: step_def b)
qed

lemma alternate_known:
  assumes "consents_known (frame_of (m, py))"
  shows "\<exists>m' h'. alternate lib n ((m, h), (m, h), py) = ((m', h'), (m', h'), py)
           \<and> consents_known (frame_of (m', py))"
proof (induction n)
  case 0
  show ?case using assms by simp
next
  case (Suc n)
  then obtain m' h' where a: "alternate lib n ((m, h), (m, h), py) = ((m', h'), (m', h'), py)"
    and k: "consents_known (frame_of (m', py))" by blast
  have s: "step lib (m', py) = (fst (step lib (m', py)), py)" by (rule step_py(1)[OF k])
  have sp: "snd (step lib (m', py)) = py" using s by (metis snd_conv)
  have k': "consents_known (frame_of (fst (step lib (m', py)), py))"
    using step_py(2)[OF k, of lib py] s by simp
  have "alternate lib (Suc n) ((m, h), (m, h), py)
          = ((fst (step lib (m', py)), h' @ [metrics (fst (step lib (m', py)))]),
             (fst (step lib (m', py)), h' @ [metrics (fst (step lib (m', py)))]), py)"
    using sp by (simp add: a case_prod_beta Let_def)
  then show ?case using k' by blast
qed

lemma known_init:
  assumes "new_Multiverse lib entropy a py = Inr w" "inherit_consent (arg_ethics_cfg a)"
  shows "consents_known (frame_of w)"
  using init_all[OF assms(1), of "\<lambda>u. consent u \<noteq> None"] assms(2)
  by (simp add: consents_known_def init_Inr(2)[OF assms(1)])

lemma interleaved_agree:
  assumes "arg_seed a = Some s" "inherit_consent (arg_ethics_cfg a)"
    and "two_runs_interleaved lib entropy1 entropy2 a n py = Inr (obs1, obs2)"
  shows "obs1 = obs2"
proof -
  obtain m1 p1 where c1: "new_Multiverse lib entropy1 a py = Inr (m1, p1)"
    using assms(3) by (auto simp: two_runs_interleaved_def split: sum.splits)
  have c2: "new_Multiverse lib entropy2 a p1 = Inr (m1, p1)"
    using c1 init_ignores_py[OF assms(1), of lib entropy2 p1 entropy1 py] by simp
  have k: "consents_known (frame_of (m1, p1))" by (rule known_init[OF c1 assms(2)])
  obtain m' h' where "alternate lib n ((m1, [metrics m1]), (m1, [metrics m1]), p1)
      = ((m', h'), (m', h'), p1)"
    using alternate_known[OF k, of lib n "[metrics m1]"] by blast
  then show ?thesis using assms(3) c1 c2 by (auto simp: two_runs_interleaved_def)
qed

subsection \<open>Properties of runs\<close>

text \<open>
  C2. Under the closed policy, after any number of steps from construction the cumulative
  exported total (also as the metrics row reports it) is exactly 0, and every ledger entry
  has \<open>allowed = False\<close> and the reason \<open>policy_closed\<close>.
\<close>

theorem closed_policy_invariant:
  assumes "arg_policy a = ''closed''" and "new_Multiverse lib entropy a py = Inr w"
  shows "exported_total (fst (run_steps lib n w)) = 0
       \<and> m_exported (metrics (fst (run_steps lib n w))) = 0
       \<and> (\<forall>e \<in> set (ledger (ethics (fst (run_steps lib n w)))).
             \<not> le_allowed e \<and> le_reason e = ''policy_closed'')"
proof -
  have "closed_inv (frame_of (run_steps lib n w))"
    by (rule run_invariant[where P = closed_inv])
       (simp_all add: closed_init[OF assms(2,1)] closed_drift closed_production closed_tunneling
          closed_collapse closed_begin closed_end)
  then show ?thesis by (simp add: closed_inv_def metrics_def Let_def)
qed

text \<open>The theorem at the default arguments (policy closed), after three steps.\<close>

theorem closed_policy_invariant_witness:
  "arg_policy default_args = ''closed''
   \<and> exported_total (fst (run_steps (tape_lib [True, False] [True]) 3
        (projr (new_Multiverse (tape_lib [True, False] [True]) ([], []) default_args [])))) = 0
   \<and> list_all (\<lambda>e. \<not> le_allowed e \<and> le_reason e = ''policy_closed'')
        (ledger (ethics (fst (run_steps (tape_lib [True, False] [True]) 3
        (projr (new_Multiverse (tape_lib [True, False] [True]) ([], []) default_args []))))))"
proof -
  have p: "arg_policy default_args = ''closed''" by (simp add: default_args_def)
  have i: "new_Multiverse (tape_lib [True, False] [True]) ([], []) default_args []
             = Inr (projr (new_Multiverse (tape_lib [True, False] [True]) ([], []) default_args []))"
    by (rule init_projr) (simp add: p)
  show ?thesis using closed_policy_invariant[OF p i, of 3] p by (simp add: list_all_iff)
qed






text \<open>
  C5. After any number of steps the ids of the bubbles, in list order (founders first,
  then children in the order they were spawned), are exactly 0, 1, 2, ...; the same holds
  inside a step for the list followed by the children queued so far. Collapsed bubbles
  stay in the list.
\<close>

theorem id_monotonicity:
  assumes "new_Multiverse lib entropy a py = Inr w0"
  shows "map bubble_id (universes (fst (run_steps lib n w0)))
           = [0..<length (universes (fst (run_steps lib n w0)))]
       \<and> (\<forall>i < length (universes (fst (run_steps lib n w0))).
            \<forall>f \<in> set (body_frames lib (step_loop lib i (step_begin (run_steps lib n w0))) i).
              map bubble_id (bubbles f) = [0..<length (bubbles f)])"
proof -
  have n: "ids_ok (frame_of (run_steps lib n w0))"
    by (rule run_invariant[where P = ids_ok])
       (simp_all add: init_ids[OF assms] ids_drift ids_production ids_tunneling
          ids_collapse ids_begin ids_end)
  have "\<forall>f \<in> set (body_frames lib (step_loop lib i (step_begin (run_steps lib n w0))) i). ids_ok f"
    if "i < length (universes (fst (run_steps lib n w0)))" for i
    by (rule body_frames_invariant[where P = ids_ok, OF n _ _ _ _ _ that])
       (simp_all add: ids_drift ids_production ids_tunneling ids_collapse ids_begin)
  then show ?thesis using n by (simp add: ids_ok_def)
qed

text \<open>The theorem at the default arguments, after three steps.\<close>

theorem id_monotonicity_witness:
  "map bubble_id (universes (fst (run_steps (tape_lib [True, False] [True]) 3
      (projr (new_Multiverse (tape_lib [True, False] [True]) ([], []) default_args [])))))
   = [0..<length (universes (fst (run_steps (tape_lib [True, False] [True]) 3
      (projr (new_Multiverse (tape_lib [True, False] [True]) ([], []) default_args [])))))]"
proof -
  have i: "new_Multiverse (tape_lib [True, False] [True]) ([], []) default_args []
             = Inr (projr (new_Multiverse (tape_lib [True, False] [True]) ([], []) default_args []))"
    by (rule init_projr) (simp add: default_args_def)
  show ?thesis using id_monotonicity[OF i, of 3] by blast
qed





subsection \<open>Determinism\<close>

text \<open>
  C6, as the code has it. Two runs with the same arguments and the same integer seed
  produce the same metrics rows and the same ledger when the second is constructed after
  the first has finished (the constructor reseeds both generators, so nothing of the state
  the first run leaves behind reaches the second), and also when both are constructed and
  then stepped in turn with \<open>inherit_consent\<close> true (every consent flag is then decided,
  and \<open>step\<close> neither reads nor advances the process-wide generator).
\<close>

theorem seeded_runs_agree:
  assumes "arg_seed a = Some s"
  shows "(two_runs_sequential lib entropy1 entropy2 a n py = Inr (obs1, obs2) \<longrightarrow> obs1 = obs2)
       \<and> (inherit_consent (arg_ethics_cfg a)
            \<and> two_runs_interleaved lib entropy1 entropy2 a n py = Inr (obs3, obs4)
          \<longrightarrow> obs3 = obs4)"
  using sequential_agree[OF assms, of lib entropy1 entropy2 n py obs1 obs2]
    interleaved_agree[OF assms, of lib entropy1 entropy2 n py obs3 obs4]
  by blast

text \<open>The theorem at the default arguments (seed 0) and one step.\<close>

theorem seeded_runs_agree_witness:
  "fst (projr (two_runs_sequential (tape_lib [True, False] [True]) ([], []) ([True], [False])
         default_args 1 []))
   = snd (projr (two_runs_sequential (tape_lib [True, False] [True]) ([], []) ([True], [False])
         default_args 1 []))"
proof -
  let ?r = "two_runs_sequential (tape_lib [True, False] [True]) ([], []) ([True], [False]) default_args 1 []"
  have 1: "?r = Inr (fst (projr ?r), snd (projr ?r))"
    by (simp add: two_runs_sequential_def simulate_def new_Multiverse_def Multiverse_init_def SovereigntyPolicy_init_def
          default_args_def Let_def case_prod_beta)
  have 2: "arg_seed default_args = Some 0" by (simp add: default_args_def)
  show ?thesis by (rule mp[OF conjunct1[OF seeded_runs_agree[OF 2]] 1])
qed

text \<open>
  C6, as the claim states it (for every pair of runs), fails when the two runs are
  interleaved and \<open>inherit_consent\<close> is false: a child's consent is then drawn from the
  process-wide generator, which the second constructor has reseeded and which both objects
  advance. With the consensual policy the first run refuses its birth export
  (\<open>no_consent\<close>) and the second authorizes it, so the ledgers and the exported totals
  differ.
\<close>

theorem seeded_runs_agree_counterexample:
  "map le_reason (snd (fst (projr (two_runs_interleaved (tape_lib [True, False] [True, False, True])
       ([], []) ([], [])
       (default_args\<lparr>arg_policy := ''consensual'',
                      arg_ethics_cfg := default_cfg\<lparr>inherit_consent := False\<rparr>\<rparr>) 1 [])))) = [''no_consent'']
   \<and> map le_reason (snd (snd (projr (two_runs_interleaved (tape_lib [True, False] [True, False, True])
       ([], []) ([], [])
       (default_args\<lparr>arg_policy := ''consensual'',
                      arg_ethics_cfg := default_cfg\<lparr>inherit_consent := False\<rparr>\<rparr>) 1 [])))) = [''ok'']
   \<and> map m_exported (fst (fst (projr (two_runs_interleaved (tape_lib [True, False] [True, False, True])
       ([], []) ([], [])
       (default_args\<lparr>arg_policy := ''consensual'',
                      arg_ethics_cfg := default_cfg\<lparr>inherit_consent := False\<rparr>\<rparr>) 1 [])))) = [0, 0]
   \<and> map m_exported (fst (snd (projr (two_runs_interleaved (tape_lib [True, False] [True, False, True])
       ([], []) ([], [])
       (default_args\<lparr>arg_policy := ''consensual'',
                      arg_ethics_cfg := default_cfg\<lparr>inherit_consent := False\<rparr>\<rparr>) 1 [])))) = [0, 1/10]
   \<and> fst (projr (two_runs_interleaved (tape_lib [True, False] [True, False, True])
       ([], []) ([], [])
       (default_args\<lparr>arg_policy := ''consensual'',
                      arg_ethics_cfg := default_cfg\<lparr>inherit_consent := False\<rparr>\<rparr>) 1 []))
     \<noteq> snd (projr (two_runs_interleaved (tape_lib [True, False] [True, False, True])
       ([], []) ([], [])
       (default_args\<lparr>arg_policy := ''consensual'',
                      arg_ethics_cfg := default_cfg\<lparr>inherit_consent := False\<rparr>\<rparr>) 1 []))"
proof -
  let ?L = "tape_lib [True, False] [True, False, True]"
  let ?A = "default_args\<lparr>arg_policy := ''consensual'',
                      arg_ethics_cfg := default_cfg\<lparr>inherit_consent := False\<rparr>\<rparr>"
  let ?M = "\<lparr>rng = [True, False], mv_policy = \<lparr>mode = ''consensual''\<rparr>,
             ethics = \<lparr>policy = \<lparr>mode = ''consensual''\<rparr>,
                        cfg = \<lparr>consent_prob = 17/20, inherit_consent = False, strictness = 1\<rparr>,
                        ledger = []\<rparr>,
             drift_sigma = 1/20, tunnel_rate = 1/20, decay_rate = 1/100, decay_inflection = 6/5,
             decay_slope = 2, birth_export_mean = 1/5, birth_export_sigma = 2/25,
             collapse_export_frac = 1/5, max_bubbles = 20000,
             universes = [\<lparr>bubble_id = 0, inflation_rate = 6/5, invariants = 0, stable = True,
                            parent_id = None, consent = Some True\<rparr>],
             mv_t = 0, exported_total = 0\<rparr> :: bool list Multiverse"
  have i: "new_Multiverse ?L ([], []) ?A py = Inr (?M, [False, True])" for py
    by (simp add: sim_defs)
  have s1: "snd (step ?L (?M, [False, True])) = [True]"
    by (simp add: sim_defs)
  have l1: "map le_reason (ledger (ethics (fst (step ?L (?M, [False, True]))))) = [''no_consent'']"
    by (simp add: sim_defs)
  have e1: "exported_total (fst (step ?L (?M, [False, True]))) = 0"
    by (simp add: sim_defs)
  have l2: "map le_reason (ledger (ethics (fst (step ?L (?M, [True]))))) = [''ok'']"
    by (simp add: sim_defs)
  have e2: "exported_total (fst (step ?L (?M, [True]))) = 1/10"
    by (simp add: sim_defs)
  have r: "two_runs_interleaved ?L ([], []) ([], []) ?A 1 []
             = Inr (([metrics ?M, metrics (fst (step ?L (?M, [False, True])))],
                     ledger (ethics (fst (step ?L (?M, [False, True]))))),
                    ([metrics ?M, metrics (fst (step ?L (?M, [True])))],
                     ledger (ethics (fst (step ?L (?M, [True]))))))"
    by (simp add: two_runs_interleaved_def i case_prod_beta Let_def s1)
  have d: "ledger (ethics (fst (step ?L (?M, [False, True]))))
             \<noteq> ledger (ethics (fst (step ?L (?M, [True]))))"
    using l1 l2 by auto
  have c: "fst (projr (two_runs_interleaved ?L ([], []) ([], []) ?A 1 []))
             \<noteq> snd (projr (two_runs_interleaved ?L ([], []) ([], []) ?A 1 []))"
  proof
    assume "fst (projr (two_runs_interleaved ?L ([], []) ([], []) ?A 1 []))
              = snd (projr (two_runs_interleaved ?L ([], []) ([], []) ?A 1 []))"
    then have "snd (fst (projr (two_runs_interleaved ?L ([], []) ([], []) ?A 1 [])))
                 = snd (snd (projr (two_runs_interleaved ?L ([], []) ([], []) ?A 1 [])))"
      by simp
    then show False using d by (simp only: r sum.sel fst_conv snd_conv)
  qed
  have m: "map m_exported (fst (fst (projr (two_runs_interleaved ?L ([], []) ([], []) ?A 1 []))))
             = [0, 0]"
          "map m_exported (fst (snd (projr (two_runs_interleaved ?L ([], []) ([], []) ?A 1 []))))
             = [0, 1/10]"
    unfolding r by (simp_all add: e1 e2 exported_metrics)
  have l: "map le_reason (snd (fst (projr (two_runs_interleaved ?L ([], []) ([], []) ?A 1 []))))
             = [''no_consent'']"
          "map le_reason (snd (snd (projr (two_runs_interleaved ?L ([], []) ([], []) ?A 1 []))))
             = [''ok'']"
    unfolding r by (simp_all add: l1 l2)
  show ?thesis using l m c by blast
qed

end
